theory Spec2Isabelle
  imports Main "HOL-Library.Word"
begin

section \<open>Go values and the part of package reflect that empaths uses\<close>

text \<open>
  The library walks arbitrary Go data through package \<^verbatim>\<open>reflect\<close>. A Go value is
  modelled as a finite tree. Strings are byte lists (\<^typ>\<open>string\<close>), as the parser
  indexes paths byte by byte. \<^verbatim>\<open>int\<close> and \<^verbatim>\<open>uint\<close> are 64 bits wide.
  Floating-point numbers are carried as their bit patterns; how they print, parse and
  compare is a parameter (\<open>runtime\<close> below).

  Limits of the model: values are finite (no pointer cycles); the fields of a struct are
  those it declares itself (promotion through embedded structs is left out); a field is
  exported when its name starts with an ASCII upper-case letter (path syntax is ASCII
  only, see parser.go).
\<close>

datatype intkind = TInt | TInt8 | TInt16 | TInt32 | TInt64

datatype uintkind = TUint | TUint8 | TUint16 | TUint32 | TUint64 | TUintptr

text \<open>\<^verbatim>\<open>reflect.Kind\<close>. \<open>KOther\<close> stands for the kinds the library never looks
  into (complex numbers, channels, functions, unsafe pointers).\<close>

datatype kind =
    KInvalid
  | KBool
  | KSigned intkind
  | KUnsigned uintkind
  | KFloat32
  | KFloat64
  | KString
  | KStruct
  | KArray
  | KSlice
  | KMap
  | KPtr
  | KInterface
  | KOther

text \<open>A map key, already of the map's key type.\<close>

datatype key =
    StringK string
  | IntK int
  | UintK nat
  | BoolK bool
  | FloatK "64 word"
  | OtherK nat

text \<open>
  \<open>Nil\<close> is the nil \<^verbatim>\<open>any\<close>. \<open>SliceV None\<close>, \<open>MapV k None\<close>, \<open>PtrV None\<close> and
  \<open>IfaceV None\<close> are the nil slice, map, pointer and interface. \<open>MapV k m\<close> carries the
  kind \<open>k\<close> of the map's declared key type. \<open>Named ms v\<close> is the value \<open>v\<close> at a defined
  type whose exported method set is \<open>ms\<close>; a value not wrapped in \<open>Named\<close> has the
  predeclared or literal type of its constructor (\<^verbatim>\<open>bool\<close>, \<^verbatim>\<open>string\<close>, ...).

  A method \<open>Meth n r\<close> takes \<open>n\<close> arguments; \<open>r\<close> is what calling it with no argument on
  this receiver gives: \<open>None\<close> when the call panics, otherwise the list of its results.
\<close>

datatype val =
    Nil
  | BoolV bool
  | IntV intkind int
  | UintV uintkind nat
  | Float32V "32 word"
  | Float64V "64 word"
  | StringV string
  | StructV "(string \<times> val) list"
  | ArrayV "val list"
  | SliceV "val list option"
  | MapV kind "(key \<times> val) list option"
  | PtrV "val option"
  | IfaceV "val option"
  | OpaqueV nat
  | Named "(string \<times> meth) list" val
and meth = Meth (numIn: nat) (callResult: "val list option")

text \<open>Every way a call of the library can panic.\<close>

datatype panic =
    AccessorPanic
  | ResolverPanic
  | UnexportedPanic
  | BoundsPanic

text \<open>
  A \<^verbatim>\<open>reflect.Value\<close>: the zero Value \<open>Invalid\<close>, or a value together with the flag
  \<^verbatim>\<open>flagRO\<close>, which reflect sets on everything reached through an unexported struct
  field.
\<close>

datatype rvalue = Invalid | RV (isRO: bool) (payload: val)

text \<open>What the Go runtime supplies and the model leaves open.\<close>

record runtime =
  sprintv :: "val \<Rightarrow> string"
  formatFloat32 :: "32 word \<Rightarrow> string"
  formatFloat64 :: "64 word \<Rightarrow> string"
  parseFloat :: "string \<Rightarrow> 64 word option"
  toFloat32 :: "64 word \<Rightarrow> 64 word"
  floatEq :: "64 word \<Rightarrow> 64 word \<Rightarrow> bool"

type_synonym ReferenceResolver = "(string \<Rightarrow> val \<Rightarrow> val option) option"

fun under :: "val \<Rightarrow> val" where
  "under (Named ms v) = under v"
| "under v = v"

fun methodsOf :: "val \<Rightarrow> (string \<times> meth) list" where
  "methodsOf (Named ms v) = ms"
| "methodsOf v = []"

fun IsValid :: "rvalue \<Rightarrow> bool" where
  "IsValid Invalid = False"
| "IsValid (RV ro v) = True"

fun kindOf :: "val \<Rightarrow> kind" where
  "kindOf Nil = KInvalid"
| "kindOf (BoolV b) = KBool"
| "kindOf (IntV k i) = KSigned k"
| "kindOf (UintV k n) = KUnsigned k"
| "kindOf (Float32V f) = KFloat32"
| "kindOf (Float64V f) = KFloat64"
| "kindOf (StringV s) = KString"
| "kindOf (StructV fs) = KStruct"
| "kindOf (ArrayV xs) = KArray"
| "kindOf (SliceV xs) = KSlice"
| "kindOf (MapV k m) = KMap"
| "kindOf (PtrV p) = KPtr"
| "kindOf (IfaceV p) = KInterface"
| "kindOf (OpaqueV n) = KOther"
| "kindOf (Named ms v) = kindOf v"

fun Kind :: "rvalue \<Rightarrow> kind" where
  "Kind Invalid = KInvalid"
| "Kind (RV ro v) = kindOf v"

text \<open>\<^verbatim>\<open>Value.IsNil\<close>, called by the library on pointers, interfaces, slices and maps
  only.\<close>

fun IsNil :: "rvalue \<Rightarrow> bool" where
  "IsNil Invalid = False"
| "IsNil (RV ro v) =
     (case under v of
        PtrV None \<Rightarrow> True
      | IfaceV None \<Rightarrow> True
      | SliceV None \<Rightarrow> True
      | MapV k None \<Rightarrow> True
      | _ \<Rightarrow> False)"

text \<open>\<^verbatim>\<open>Value.Elem\<close> of a non-nil pointer or interface; the flag is inherited.\<close>

fun Elem :: "rvalue \<Rightarrow> rvalue" where
  "Elem Invalid = Invalid"
| "Elem (RV ro v) =
     (case under v of
        PtrV (Some p) \<Rightarrow> RV ro p
      | IfaceV (Some p) \<Rightarrow> RV ro p
      | _ \<Rightarrow> Invalid)"

definition isUpperASCII :: "char \<Rightarrow> bool" where
  "isUpperASCII c = (65 \<le> (of_char c :: nat) \<and> (of_char c :: nat) \<le> 90)"

definition isExported :: "string \<Rightarrow> bool" where
  "isExported name = (case name of [] \<Rightarrow> False | c # cs \<Rightarrow> isUpperASCII c)"

text \<open>\<^verbatim>\<open>Value.FieldByName\<close> on a struct: the zero Value when there is no such field;
  a field with an unexported name is read-only.\<close>

fun FieldByName :: "rvalue \<Rightarrow> string \<Rightarrow> rvalue" where
  "FieldByName Invalid name = Invalid"
| "FieldByName (RV ro v) name =
     (case under v of
        StructV fs \<Rightarrow>
          (case map_of fs name of
             None \<Rightarrow> Invalid
           | Some f \<Rightarrow> RV (ro \<or> \<not> isExported name) f)
      | _ \<Rightarrow> Invalid)"

text \<open>\<^verbatim>\<open>Value.Len\<close> and \<^verbatim>\<open>Value.Index\<close> of an array or slice.\<close>

fun elemsOf :: "val \<Rightarrow> val list" where
  "elemsOf (ArrayV xs) = xs"
| "elemsOf (SliceV (Some xs)) = xs"
| "elemsOf v = []"

fun Len :: "rvalue \<Rightarrow> nat" where
  "Len Invalid = 0"
| "Len (RV ro v) = length (elemsOf (under v))"

fun Index :: "rvalue \<Rightarrow> nat \<Rightarrow> panic + rvalue" where
  "Index Invalid i = Inl BoundsPanic"
| "Index (RV ro v) i =
     (if i < length (elemsOf (under v)) then Inr (RV ro (elemsOf (under v) ! i))
      else Inl BoundsPanic)"

text \<open>Key equality of Go maps; on floating-point keys it is the runtime's \<^verbatim>\<open>==\<close>.\<close>

fun keyEq :: "runtime \<Rightarrow> key \<Rightarrow> key \<Rightarrow> bool" where
  "keyEq rt (FloatK a) (FloatK b) = floatEq rt a b"
| "keyEq rt a b = (a = b)"

fun lookupKey :: "runtime \<Rightarrow> (key \<times> val) list \<Rightarrow> key \<Rightarrow> val option" where
  "lookupKey rt [] k = None"
| "lookupKey rt ((k', v) # kvs) k = (if keyEq rt k' k then Some v else lookupKey rt kvs k)"

text \<open>\<^verbatim>\<open>Value.MapIndex\<close>: the zero Value when the key is not in the map (a nil map
  has no key); the element found inherits the flag of the map.\<close>

fun MapIndex :: "runtime \<Rightarrow> rvalue \<Rightarrow> key \<Rightarrow> rvalue" where
  "MapIndex rt Invalid k = Invalid"
| "MapIndex rt (RV ro v) k =
     (case under v of
        MapV kk (Some kvs) \<Rightarrow>
          (case lookupKey rt kvs k of None \<Rightarrow> Invalid | Some e \<Rightarrow> RV ro e)
      | _ \<Rightarrow> Invalid)"

text \<open>The kind of the key type of a map (\<^verbatim>\<open>mapValue.Type().Key().Kind()\<close>); the
  library asks for it on maps only.\<close>

fun keyKind :: "rvalue \<Rightarrow> kind" where
  "keyKind Invalid = KInvalid"
| "keyKind (RV ro v) = (case under v of MapV kk m \<Rightarrow> kk | _ \<Rightarrow> KInvalid)"

text \<open>\<^verbatim>\<open>Value.MethodByName\<close>: the method of that name in the method set of the
  value's type, bound to the value; it inherits the flag.\<close>

fun MethodByName :: "rvalue \<Rightarrow> string \<Rightarrow> (bool \<times> meth) option" where
  "MethodByName Invalid name = None"
| "MethodByName (RV ro v) name =
     (case map_of (methodsOf v) name of None \<Rightarrow> None | Some m \<Rightarrow> Some (ro, m))"

text \<open>\<^verbatim>\<open>Value.Call(nil)\<close> on a bound method without parameters. reflect refuses
  (\<^verbatim>\<open>mustBeExported\<close>) to call a method value obtained through an unexported field; a
  panic of the method itself goes through. The results are fresh Values.\<close>

fun Call :: "bool \<times> meth \<Rightarrow> panic + rvalue list" where
  "Call (ro, m) =
     (if ro then Inl UnexportedPanic
      else case callResult m of
             None \<Rightarrow> Inl AccessorPanic
           | Some rs \<Rightarrow> Inr (map (RV False) rs))"

text \<open>\<^verbatim>\<open>copyValue := reflect.New(result.Type()).Elem(); copyValue.Set(result)\<close>:
  \<^verbatim>\<open>Set\<close> refuses (\<^verbatim>\<open>mustBeExported\<close>) a source obtained through an unexported field;
  the copy is a fresh, settable Value. (The zero Value, on which reflect panics too, does
  not get here: \<open>getMapValue\<close> returns before.)\<close>

fun SetCopy :: "rvalue \<Rightarrow> panic + rvalue" where
  "SetCopy Invalid = Inl UnexportedPanic"
| "SetCopy (RV ro v) = (if ro then Inl UnexportedPanic else Inr (RV False v))"

text \<open>\<^verbatim>\<open>Value.CanInterface\<close> and \<^verbatim>\<open>Value.Interface\<close>.\<close>

fun CanInterface :: "rvalue \<Rightarrow> bool" where
  "CanInterface Invalid = False"
| "CanInterface (RV ro v) = (\<not> ro)"

text \<open>\<^verbatim>\<open>reflect.ValueOf\<close>.\<close>

fun ValueOf :: "val \<Rightarrow> rvalue" where
  "ValueOf Nil = Invalid"
| "ValueOf v = RV False v"

text \<open>A Go slice expression \<^verbatim>\<open>s[lo:hi]\<close> panics outside \<open>lo \<le> hi \<le> len(s)\<close>.\<close>

definition slice :: "string \<Rightarrow> nat \<Rightarrow> nat \<Rightarrow> panic + string" where
  "slice s lo hi =
     (if lo \<le> hi \<and> hi \<le> length s then Inr (take (hi - lo) (drop lo s)) else Inl BoundsPanic)"

section \<open>Package strconv\<close>

text \<open>\<^verbatim>\<open>strconv.FormatUint(n, 10)\<close> and \<^verbatim>\<open>strconv.FormatInt(i, 10)\<close> (also
  \<^verbatim>\<open>strconv.Itoa\<close>).\<close>

definition digitChar :: "nat \<Rightarrow> char" where
  "digitChar d = ''0123456789'' ! d"

fun FormatUint :: "nat \<Rightarrow> string" where
  "FormatUint n =
     (if n < 10 then [digitChar n]
      else FormatUint (n div 10) @ [digitChar (n mod 10)])"

declare FormatUint.simps [simp del]

definition FormatInt :: "int \<Rightarrow> string" where
  "FormatInt i = (if i < 0 then CHR ''-'' # FormatUint (nat (- i)) else FormatUint (nat i))"

definition isDigit :: "char \<Rightarrow> bool" where
  "isDigit c = (48 \<le> (of_char c :: nat) \<and> (of_char c :: nat) \<le> 57)"

fun parseDigits :: "string \<Rightarrow> nat \<Rightarrow> nat option" where
  "parseDigits [] acc = Some acc"
| "parseDigits (c # cs) acc =
     (if isDigit c then parseDigits cs (acc * 10 + (of_char c - 48)) else None)"

text \<open>\<^verbatim>\<open>strconv.ParseUint(s, 10, 64)\<close>: \<open>None\<close> for every error (syntax or range).\<close>

definition ParseUint :: "string \<Rightarrow> nat option" where
  "ParseUint s =
     (if s = [] then None
      else case parseDigits s 0 of
             None \<Rightarrow> None
           | Some n \<Rightarrow> if n < 2 ^ 64 then Some n else None)"

text \<open>\<^verbatim>\<open>strconv.ParseInt(s, 10, 64)\<close>: an optional sign, then \<^verbatim>\<open>ParseUint\<close>, then
  the range of \<^verbatim>\<open>int64\<close>.\<close>

definition ParseInt :: "string \<Rightarrow> int option" where
  "ParseInt s =
     (case s of
        [] \<Rightarrow> None
      | c # cs \<Rightarrow>
          (let neg = (c = CHR ''-'');
               ds = (if c = CHR ''+'' \<or> c = CHR ''-'' then cs else s)
           in case ParseUint ds of
                None \<Rightarrow> None
              | Some un \<Rightarrow>
                  if \<not> neg \<and> un \<ge> 2 ^ 63 then None
                  else if neg \<and> un > 2 ^ 63 then None
                  else Some (if neg then - int un else int un)))"

text \<open>\<^verbatim>\<open>strconv.Atoi\<close> is \<^verbatim>\<open>ParseInt(s, 10, 0)\<close> with a fast path for short
  strings that accepts the same strings; \<^verbatim>\<open>int\<close> has 64 bits.\<close>

definition Atoi :: "string \<Rightarrow> int option" where
  "Atoi s = ParseInt s"

text \<open>\<^verbatim>\<open>strconv.ParseBool\<close>.\<close>

definition ParseBool :: "string \<Rightarrow> bool option" where
  "ParseBool s =
     (if s \<in> set [''1'', ''t'', ''T'', ''TRUE'', ''true'', ''True''] then Some True
      else if s \<in> set [''0'', ''f'', ''F'', ''FALSE'', ''false'', ''False''] then Some False
      else None)"

section \<open>helpers.go\<close>

fun toString :: "runtime \<Rightarrow> val \<Rightarrow> string" where
  "toString rt Nil = []"
| "toString rt (StringV s) = s"
| "toString rt (BoolV b) = (if b then ''true'' else ''false'')"
| "toString rt (IntV k i) = FormatInt i"
| "toString rt (UintV k n) =
     (if k = TUintptr then sprintv rt (UintV k n) else FormatUint n)"
| "toString rt (Float64V f) = formatFloat64 rt f"
| "toString rt (Float32V f) = formatFloat32 rt f"
| "toString rt v = sprintv rt v"

fun intBits :: "intkind \<Rightarrow> nat" where
  "intBits TInt = 64"
| "intBits TInt8 = 8"
| "intBits TInt16 = 16"
| "intBits TInt32 = 32"
| "intBits TInt64 = 64"

fun uintBits :: "uintkind \<Rightarrow> nat" where
  "uintBits TUint = 64"
| "uintBits TUint8 = 8"
| "uintBits TUint16 = 16"
| "uintBits TUint32 = 32"
| "uintBits TUint64 = 64"
| "uintBits TUintptr = 64"

text \<open>\<^verbatim>\<open>Value.SetInt\<close> and \<^verbatim>\<open>Value.SetUint\<close> store the 64-bit argument converted to
  the width of the key type, which wraps around.\<close>

definition SetInt :: "intkind \<Rightarrow> int \<Rightarrow> key" where
  "SetInt k i =
     IntK ((i + 2 ^ (intBits k - 1)) mod 2 ^ intBits k - 2 ^ (intBits k - 1))"

definition SetUint :: "uintkind \<Rightarrow> nat \<Rightarrow> key" where
  "SetUint k n = UintK (n mod 2 ^ uintBits k)"

text \<open>\<open>parseMapKey\<close>: \<open>None\<close> is the invalid Value.\<close>

fun parseMapKey :: "runtime \<Rightarrow> string \<Rightarrow> kind \<Rightarrow> key option" where
  "parseMapKey rt keyStr KString = Some (StringK keyStr)"
| "parseMapKey rt keyStr (KSigned k) =
     (case ParseInt keyStr of None \<Rightarrow> None | Some intVal \<Rightarrow> Some (SetInt k intVal))"
| "parseMapKey rt keyStr (KUnsigned k) =
     (if k = TUintptr then None
      else case ParseUint keyStr of None \<Rightarrow> None | Some uintVal \<Rightarrow> Some (SetUint k uintVal))"
| "parseMapKey rt keyStr KBool =
     (case ParseBool keyStr of None \<Rightarrow> None | Some boolVal \<Rightarrow> Some (BoolK boolVal))"
| "parseMapKey rt keyStr KFloat32 =
     (case parseFloat rt keyStr of
        None \<Rightarrow> None
      | Some floatVal \<Rightarrow> Some (FloatK (toFloat32 rt floatVal)))"
| "parseMapKey rt keyStr KFloat64 =
     (case parseFloat rt keyStr of None \<Rightarrow> None | Some floatVal \<Rightarrow> Some (FloatK floatVal))"
| "parseMapKey rt keyStr k = None"

definition getMapValue :: "runtime \<Rightarrow> string \<Rightarrow> rvalue \<Rightarrow> panic + rvalue" where
  "getMapValue rt keyStr mapValue =
     (case parseMapKey rt keyStr (keyKind mapValue) of
        None \<Rightarrow> Inr Invalid
      | Some k \<Rightarrow>
          (let result = MapIndex rt mapValue k
           in if \<not> IsValid result then Inr Invalid else SetCopy result))"

lemma size_under: "size (under v) \<le> size v"
  by (induction v rule: under.induct) auto

lemma kindOf_under: "kindOf (under v) = kindOf v"
  by (induction v rule: under.induct) auto

lemma under_not_Named: "under v \<noteq> Named ms w"
  by (induction v rule: under.induct) auto

fun rsize :: "rvalue \<Rightarrow> nat" where
  "rsize Invalid = 0"
| "rsize (RV ro v) = Suc (size v)"

lemma rsize_Elem:
  assumes "Kind value = KPtr \<or> Kind value = KInterface" and "\<not> IsNil value"
  shows "rsize (Elem value) < rsize value"
proof (cases "value")
  case Invalid
  with assms show ?thesis by simp
next
  case (RV ro v)
  have le: "size (under v) \<le> size v" by (rule size_under)
  have k: "kindOf (under v) = KPtr \<or> kindOf (under v) = KInterface"
    using assms(1) RV by (simp add: kindOf_under)
  show ?thesis
  proof (cases "under v")
    case (PtrV p)
    with assms(2) RV le show ?thesis by (cases p) auto
  next
    case (IfaceV p)
    with assms(2) RV le show ?thesis by (cases p) auto
  qed (use k under_not_Named [of v] in auto)
qed

function extractValue :: "rvalue \<Rightarrow> val" where
  "extractValue value =
     (if \<not> IsValid value then Nil
      else if (Kind value = KPtr \<or> Kind value = KSlice \<or> Kind value = KMap
               \<or> Kind value = KInterface) \<and> IsNil value then Nil
      else if Kind value = KPtr then extractValue (Elem value)
      else if Kind value = KInterface then extractValue (Elem value)
      else if \<not> CanInterface value then Nil
      else payload value)"
  by pat_completeness auto
termination
  by (relation "measure rsize") (auto intro: rsize_Elem)

declare extractValue.simps [simp del]

section \<open>resolver.go\<close>

definition resolveIndexOrKey :: "runtime \<Rightarrow> string \<Rightarrow> rvalue \<Rightarrow> panic + rvalue" where
  "resolveIndexOrKey rt indexOrKey value =
     (if \<not> IsValid value then Inr Invalid
      else if Kind value = KArray \<or> Kind value = KSlice then
        (case Atoi indexOrKey of
           None \<Rightarrow> Inr Invalid
         | Some index \<Rightarrow>
             if index < 0 \<or> index \<ge> int (Len value) then Inr Invalid
             else Index value (nat index))
      else if Kind value = KMap then getMapValue rt indexOrKey value
      else Inr Invalid)"

definition resolveField :: "runtime \<Rightarrow> string \<Rightarrow> rvalue \<Rightarrow> panic + rvalue" where
  "resolveField rt name value =
     (if Kind value = KStruct then
        (let field = FieldByName value name
         in if \<not> IsValid field then Inr Invalid else Inr field)
      else if Kind value = KMap then getMapValue rt name value
      else Inr Invalid)"

definition resolveMethod :: "string \<Rightarrow> rvalue \<Rightarrow> panic + rvalue" where
  "resolveMethod name value =
     (case MethodByName value name of
        None \<Rightarrow> Inr Invalid
      | Some method \<Rightarrow>
          if numIn (snd method) > 0 then Inr Invalid
          else case Call method of
                 Inl e \<Rightarrow> Inl e
               | Inr results \<Rightarrow>
                   (case results of [] \<Rightarrow> Inr Invalid | r # rs \<Rightarrow> Inr r))"

definition resolveFieldOrMethod :: "runtime \<Rightarrow> string \<Rightarrow> rvalue \<Rightarrow> panic + rvalue" where
  "resolveFieldOrMethod rt name value =
     (if \<not> IsValid value \<or> name = [] then Inr Invalid
      else case resolveMethod name value of
             Inl e \<Rightarrow> Inl e
           | Inr methodValue \<Rightarrow>
               if IsValid methodValue then Inr methodValue
               else resolveField rt name value)"

text \<open>\<^verbatim>\<open>strings.Index(path, "]")\<close>: the position of the first such byte.\<close>

fun indexByte :: "string \<Rightarrow> char \<Rightarrow> nat option" where
  "indexByte [] b = None"
| "indexByte (c # cs) b =
     (if c = b then Some 0 else map_option Suc (indexByte cs b))"

text \<open>The scan of \<open>resolvePathSegments\<close> for the first \<^verbatim>\<open>.\<close> or \<^verbatim>\<open>[\<close>: \<open>None\<close> is
  \<^verbatim>\<open>splitIdx == -1\<close>.\<close>

fun firstDelim :: "string \<Rightarrow> nat option" where
  "firstDelim [] = None"
| "firstDelim (c # cs) =
     (if c = CHR ''.'' \<or> c = CHR ''['' then Some 0 else map_option Suc (firstDelim cs))"

lemma indexByte_less: "indexByte s b = Some i \<Longrightarrow> i < length s"
  by (induction s arbitrary: i) (auto split: if_splits)

lemma firstDelim_less: "firstDelim s = Some i \<Longrightarrow> i < length s"
  by (induction s arbitrary: i) (auto split: if_splits)

lemma firstDelim_char:
  "firstDelim s = Some i \<Longrightarrow> s ! i = CHR ''.'' \<or> s ! i = CHR ''[''"
  by (induction s arbitrary: i) (auto split: if_splits)

text \<open>
  The three mutually recursive walkers. The slices \<^verbatim>\<open>path[:splitIdx]\<close>,
  \<^verbatim>\<open>path[splitIdx+1:]\<close>, \<^verbatim>\<open>path[splitIdx:]\<close> and \<^verbatim>\<open>path[closeBracketIndex+1:]\<close> are
  within bounds because the index was found in \<open>path\<close> itself (\<open>firstDelim_less\<close>,
  \<open>indexByte_less\<close>), so they are \<open>take\<close> and \<open>drop\<close>;
  \<^verbatim>\<open>path[1:closeBracketIndex]\<close> goes through \<open>slice\<close>.
  \<^verbatim>\<open>closeBracketIndex == len(path)-1\<close> is written without subtraction.
\<close>

function resolvePathAgainstValue :: "runtime \<Rightarrow> string \<Rightarrow> rvalue \<Rightarrow> panic + rvalue"
  and resolvePathSegments :: "runtime \<Rightarrow> string \<Rightarrow> rvalue \<Rightarrow> panic + rvalue"
  and resolveArrayOrMapAccess :: "runtime \<Rightarrow> string \<Rightarrow> rvalue \<Rightarrow> panic + rvalue"
where
  "resolvePathAgainstValue rt path value =
     (if \<not> IsValid value then Inr Invalid
      else
        (let path' = (if length path > 0 \<and> path ! 0 = CHR ''.'' then drop 1 path else path)
         in if path' = [] then Inr value
            else if Kind value = KPtr \<or> Kind value = KInterface then
              (if IsNil value then Inr Invalid
               else resolvePathAgainstValue rt path' (Elem value))
            else resolvePathSegments rt path' value))"
| "resolvePathSegments rt path value =
     (if length path > 0 \<and> path ! 0 = CHR ''['' then resolveArrayOrMapAccess rt path value
      else
        (let (currentSegment, remainingPath) =
               (case firstDelim path of
                  None \<Rightarrow> (path, [])
                | Some splitIdx \<Rightarrow>
                    if path ! splitIdx = CHR ''.''
                    then (take splitIdx path, drop (splitIdx + 1) path)
                    else (take splitIdx path, drop splitIdx path))
         in case resolveFieldOrMethod rt currentSegment value of
              Inl e \<Rightarrow> Inl e
            | Inr resolvedValue \<Rightarrow>
                if \<not> IsValid resolvedValue \<or> remainingPath = [] then Inr resolvedValue
                else resolvePathAgainstValue rt remainingPath resolvedValue))"
| "resolveArrayOrMapAccess rt path value =
     (case indexByte path CHR '']'' of
        None \<Rightarrow> Inr Invalid
      | Some closeBracketIndex \<Rightarrow>
          (case slice path 1 closeBracketIndex of
             Inl e \<Rightarrow> Inl e
           | Inr indexOrKey \<Rightarrow>
               (case resolveIndexOrKey rt indexOrKey value of
                  Inl e \<Rightarrow> Inl e
                | Inr resolvedValue \<Rightarrow>
                    if \<not> IsValid resolvedValue \<or> closeBracketIndex + 1 = length path
                    then Inr resolvedValue
                    else resolvePathAgainstValue rt (drop (closeBracketIndex + 1) path)
                           resolvedValue)))"
  by pat_completeness auto
termination
  apply (relation "measures
     [\<lambda>x. case x of Inl (rt, p, v) \<Rightarrow> length p
                  | Inr (Inl (rt, p, v)) \<Rightarrow> length p
                  | Inr (Inr (rt, p, v)) \<Rightarrow> length p,
      \<lambda>x. case x of Inl (rt, p, v) \<Rightarrow> rsize v
                  | Inr (Inl (rt, p, v)) \<Rightarrow> rsize v
                  | Inr (Inr (rt, p, v)) \<Rightarrow> rsize v,
      \<lambda>x. case x of Inl (rt, p, v) \<Rightarrow> 2
                  | Inr (Inl (rt, p, v)) \<Rightarrow> 1
                  | Inr (Inr (rt, p, v)) \<Rightarrow> (0::nat)]")
        apply simp
       apply (auto simp: rsize_Elem split: if_splits)[1]
      apply (auto split: if_splits)[1]
     apply simp
    apply (auto split: option.splits if_splits dest: firstDelim_less firstDelim_char)[1]
    apply (metis firstDelim_less firstDelim_char gr0I diff_less length_greater_0_conv
      less_nat_zero_code list.size(3) zero_less_diff nth_Cons_0)
  apply (auto dest: indexByte_less)
  done

declare resolvePathAgainstValue.simps [simp del]
declare resolvePathSegments.simps [simp del]
declare resolveArrayOrMapAccess.simps [simp del]

section \<open>parser.go and operators.go: scanning\<close>

text \<open>The loop of \<open>readUntilTerminatorASCII\<close>: the first position from \<open>index\<close> on that
  holds a space, \<^verbatim>\<open>!\<close> or \<^verbatim>\<open>=\<close>, or the end of the path.\<close>

function readUntilLoop :: "string \<Rightarrow> nat \<Rightarrow> nat" where
  "readUntilLoop path index =
     (if index < length path then
        (let c = path ! index
         in if c = CHR '' '' \<or> c = CHR ''!'' \<or> c = CHR ''='' then index
            else readUntilLoop path (index + 1))
      else index)"
  by pat_completeness auto
termination
  by (relation "measure (\<lambda>(path, index). length path - index)") auto

declare readUntilLoop.simps [simp del]

definition readUntilTerminatorASCII :: "string \<Rightarrow> nat \<Rightarrow> panic + (string \<times> nat)" where
  "readUntilTerminatorASCII path index =
     (let start = index;
          index' = readUntilLoop path index
      in case slice path start index' of
           Inl e \<Rightarrow> Inl e
         | Inr s \<Rightarrow> Inr (s, index'))"

text \<open>First pass of \<open>resolveStringLiteralASCII\<close>: finds the closing quote; returns the
  final \<open>index\<close> and \<open>hasEscapes\<close>.\<close>

function literalEnd :: "string \<Rightarrow> char \<Rightarrow> nat \<Rightarrow> bool \<Rightarrow> bool \<Rightarrow> nat \<times> bool" where
  "literalEnd path quoteChar index escaping hasEscapes =
     (if index < length path then
        (let c = path ! index
         in if escaping then literalEnd path quoteChar (index + 1) False True
            else if c = quoteChar then (index, hasEscapes)
            else if c = CHR 0x5C then literalEnd path quoteChar (index + 1) True hasEscapes
            else literalEnd path quoteChar (index + 1) escaping hasEscapes)
      else (index, hasEscapes))"
  by pat_completeness auto
termination
  by (relation "measure (\<lambda>(path, q, index, e, h). length path - index)") auto

declare literalEnd.simps [simp del]

text \<open>Second pass: copies \<^verbatim>\<open>path[start:index]\<close> into the builder \<open>sb\<close>, dropping each
  escaping backslash. \<^verbatim>\<open>path[i]\<close> panics out of range.\<close>

function literalBuild :: "string \<Rightarrow> nat \<Rightarrow> nat \<Rightarrow> bool \<Rightarrow> string \<Rightarrow> panic + string" where
  "literalBuild path i index escaping sb =
     (if i < index then
        (if i < length path then
           (let c = path ! i
            in if escaping then literalBuild path (i + 1) index False (sb @ [c])
               else if c = CHR 0x5C then literalBuild path (i + 1) index True sb
               else literalBuild path (i + 1) index escaping (sb @ [c]))
         else Inl BoundsPanic)
      else Inr sb)"
  by pat_completeness auto
termination
  by (relation "measure (\<lambda>(path, i, index, e, sb). index - i)") auto

declare literalBuild.simps [simp del]

definition resolveStringLiteralASCII :: "string \<Rightarrow> nat \<Rightarrow> char \<Rightarrow> panic + (string \<times> nat)" where
  "resolveStringLiteralASCII path index quoteChar =
     (let start = index + 1;
          (index', hasEscapes) = literalEnd path quoteChar start False False
      in if \<not> hasEscapes then
           (case slice path start index' of
              Inl e \<Rightarrow> Inl e
            | Inr s \<Rightarrow> Inr (s, index' + 1))
         else
           (case literalBuild path start index' False [] of
              Inl e \<Rightarrow> Inl e
            | Inr s \<Rightarrow> Inr (s, index' + 1)))"

text \<open>\<open>parseOperator\<close>: the operator flag, the next index and the error (\<open>None\<close> is
  \<^verbatim>\<open>nil\<close>). The first test is over Go's signed \<^verbatim>\<open>int\<close>.\<close>

definition parseOperator :: "string \<Rightarrow> nat \<Rightarrow> bool \<times> nat \<times> string option" where
  "parseOperator path index =
     (if int index \<ge> int (length path) - 1
      then (False, index + 1, Some ''no operator found for comparison'')
      else if path ! index = CHR ''!'' \<and> path ! (index + 1) = CHR ''=''
      then (False, index + 2, None)
      else if path ! index = CHR ''='' \<and> path ! (index + 1) = CHR ''=''
      then (True, index + 2, None)
      else (False, index + 1, Some ''invalid operator''))"

definition resolveReference ::
  "string \<Rightarrow> val \<Rightarrow> nat \<Rightarrow> ReferenceResolver \<Rightarrow> panic + (val \<times> nat)" where
  "resolveReference path data index refResolver =
     (case readUntilTerminatorASCII path (index + 1) of
        Inl e \<Rightarrow> Inl e
      | Inr (referenceName, index') \<Rightarrow>
          (case refResolver of
             None \<Rightarrow> Inr (Nil, index')
           | Some f \<Rightarrow>
               (case f referenceName data of
                  None \<Rightarrow> Inl ResolverPanic
                | Some referenceValue \<Rightarrow> Inr (referenceValue, index'))))"

text \<open>\<open>resolveModel\<close>: value, next index, error. The error is always \<^verbatim>\<open>nil\<close>.\<close>

definition resolveModel ::
  "runtime \<Rightarrow> string \<Rightarrow> val \<Rightarrow> nat \<Rightarrow> panic + (val \<times> nat \<times> string option)" where
  "resolveModel rt path data index =
     (case readUntilTerminatorASCII path (index + 1) of
        Inl e \<Rightarrow> Inl e
      | Inr (modelPath, index') \<Rightarrow>
          if data = Nil then Inr (Nil, index', None)
          else case resolvePathAgainstValue rt modelPath (ValueOf data) of
                 Inl e \<Rightarrow> Inl e
               | Inr result \<Rightarrow> Inr (extractValue result, index', None))"

text \<open>
  \<^verbatim>\<open>strings.ToLower\<close> on ASCII letters. Bytes outside ASCII are left alone: Go lower-cases
  them rune by rune, and no rune outside ASCII lower-cases to a letter of \<^verbatim>\<open>true\<close> or
  \<^verbatim>\<open>false\<close>, the only strings the result is compared with.
\<close>

definition toLowerByte :: "char \<Rightarrow> char" where
  "toLowerByte c =
     (case indexByte ''ABCDEFGHIJKLMNOPQRSTUVWXYZ'' c of
        None \<Rightarrow> c
      | Some i \<Rightarrow> ''abcdefghijklmnopqrstuvwxyz'' ! i)"

definition ToLower :: "string \<Rightarrow> string" where
  "ToLower s = map toLowerByte s"

text \<open>The type assertion \<^verbatim>\<open>value.(bool)\<close>: only a value of the predeclared type
  \<^verbatim>\<open>bool\<close> passes.\<close>

fun asBool :: "val \<Rightarrow> bool option" where
  "asBool (BoolV b) = Some b"
| "asBool v = None"

lemma readUntilLoop_ge: "index \<le> readUntilLoop path index"
proof (induction path index rule: readUntilLoop.induct)
  case (1 path index)
  then show ?case
    by (subst readUntilLoop.simps) (auto simp: Let_def dest: Suc_leD)
qed

lemma readUntilLoop_le: "index \<le> length path \<Longrightarrow> readUntilLoop path index \<le> length path"
proof (induction path index rule: readUntilLoop.induct)
  case (1 path index)
  then show ?case
    by (subst readUntilLoop.simps) (auto simp: Let_def)
qed

lemma literalEnd_ge: "index \<le> fst (literalEnd path q index e h)"
proof (induction path q index e h rule: literalEnd.induct)
  case (1 path q index e h)
  then show ?case
    by (subst literalEnd.simps) (auto simp: Let_def dest: Suc_leD)
qed

lemma literalEnd_le:
  "index \<le> length path \<Longrightarrow> fst (literalEnd path q index e h) \<le> length path"
proof (induction path q index e h rule: literalEnd.induct)
  case (1 path q index e h)
  then show ?case
    by (subst literalEnd.simps) (auto simp: Let_def)
qed

section \<open>parser.go and operators.go: operands and operators\<close>

text \<open>
  \<open>resolveOperand\<close> (its loop is \<open>operandLoop\<close>) and \<open>resolveNegation\<close> call each other.
  A string literal becomes a Go \<^verbatim>\<open>string\<close>, the result of a negation a Go \<^verbatim>\<open>bool\<close>.
\<close>

function resolveOperand ::
    "runtime \<Rightarrow> string \<Rightarrow> val \<Rightarrow> ReferenceResolver \<Rightarrow> nat \<Rightarrow> panic + (val \<times> nat)"
  and operandLoop ::
    "runtime \<Rightarrow> string \<Rightarrow> val \<Rightarrow> ReferenceResolver \<Rightarrow> nat \<Rightarrow> panic + (val \<times> nat)"
  and resolveNegation ::
    "runtime \<Rightarrow> string \<Rightarrow> val \<Rightarrow> nat \<Rightarrow> ReferenceResolver \<Rightarrow> panic + (val \<times> nat)"
where
  "resolveOperand rt path data refResolver startIndex =
     (if length path = 0 then Inr (data, startIndex)
      else operandLoop rt path data refResolver startIndex)"
| "operandLoop rt path data refResolver index =
     (if index < length path then
        (let c = path ! index
         in if c = CHR ''.'' then
              (case resolveModel rt path data index of
                 Inl e \<Rightarrow> Inl e
               | Inr (modelResult, newIndex, err) \<Rightarrow>
                   if err \<noteq> None then Inr (Nil, index) else Inr (modelResult, newIndex))
            else if c = CHR 0x27 \<or> c = CHR 0x22 then
              (case resolveStringLiteralASCII path index c of
                 Inl e \<Rightarrow> Inl e
               | Inr (stringResult, newIndex) \<Rightarrow> Inr (StringV stringResult, newIndex))
            else if c = CHR ''!'' then resolveNegation rt path data index refResolver
            else if c = CHR '':'' then resolveReference path data index refResolver
            else operandLoop rt path data refResolver (index + 1))
      else Inr (data, index))"
| "resolveNegation rt path data index refResolver =
     (case resolveOperand rt path data refResolver (index + 1) of
        Inl e \<Rightarrow> Inl e
      | Inr (value, newIndex) \<Rightarrow>
          (case asBool value of
             Some boolValue \<Rightarrow> Inr (BoolV (\<not> boolValue), newIndex)
           | None \<Rightarrow>
               (let strValue = toString rt value;
                    lowerStr = ToLower strValue
                in if lowerStr = ''true'' then Inr (BoolV False, newIndex)
                   else if lowerStr = ''false'' then Inr (BoolV True, newIndex)
                   else Inr (BoolV False, newIndex))))"
  by pat_completeness auto
termination
  by (relation "measure (\<lambda>x. case x of
        Inl (rt, path, d, r, i) \<Rightarrow> (if i < length path then 3 * (length path - i) + 2 else 1)
      | Inr (Inl (rt, path, d, r, i)) \<Rightarrow> (if i < length path then 3 * (length path - i) + 1 else 0)
      | Inr (Inr (rt, path, d, i, r)) \<Rightarrow> (if i < length path then 3 * (length path - i) else 2))")
     auto

declare resolveOperand.simps [simp del]
declare operandLoop.simps [simp del]
declare resolveNegation.simps [simp del]

definition resolveComparison ::
  "runtime \<Rightarrow> string \<Rightarrow> val \<Rightarrow> nat \<Rightarrow> ReferenceResolver \<Rightarrow> panic + (bool \<times> nat)" where
  "resolveComparison rt path data index refResolver =
     (case resolveOperand rt path data refResolver (index + 1) of
        Inl e \<Rightarrow> Inl e
      | Inr (leftOperand, index1) \<Rightarrow>
          (case parseOperator path index1 of
             (equalsOperator, index2, err) \<Rightarrow>
               if err \<noteq> None then Inr (False, index2)
               else
                 (let leftStr = toString rt leftOperand
                  in case resolveOperand rt path data refResolver index2 of
                       Inl e \<Rightarrow> Inl e
                     | Inr (rightOperand, index3) \<Rightarrow>
                         (let rightStr = toString rt rightOperand
                          in if equalsOperator then Inr (leftStr = rightStr, index3)
                             else Inr (leftStr \<noteq> rightStr, index3)))))"

subsection \<open>Every delegate moves the index forward\<close>

lemma readUntilTerminatorASCII_index:
  "readUntilTerminatorASCII path index = Inr (s, j) \<Longrightarrow> index \<le> j"
  using readUntilLoop_ge [of index path]
  by (auto simp: readUntilTerminatorASCII_def Let_def split: sum.splits)

lemma resolveModel_index:
  "resolveModel rt path data index = Inr (v, j, err) \<Longrightarrow> index < j \<and> err = None"
  by (auto simp: resolveModel_def split: sum.splits if_splits
           dest!: readUntilTerminatorASCII_index)

lemma resolveReference_index:
  "resolveReference path data index refResolver = Inr (v, j) \<Longrightarrow> index < j"
  by (auto simp: resolveReference_def split: sum.splits option.splits
           dest!: readUntilTerminatorASCII_index)

lemma resolveStringLiteralASCII_index:
  "resolveStringLiteralASCII path index q = Inr (s, j) \<Longrightarrow> index < j"
  using literalEnd_ge [of "index + 1" path q False False]
  by (auto simp: resolveStringLiteralASCII_def Let_def
           split: sum.splits if_splits prod.splits)

lemma operand_negation_index:
  "(resolveOperand rt path data refResolver startIndex = Inr (v, j) \<longrightarrow> startIndex \<le> j)"
  "(operandLoop rt path data refResolver index = Inr (v, j) \<longrightarrow> index \<le> j)"
  "(resolveNegation rt path data index' refResolver = Inr (v, j) \<longrightarrow> index' < j)"
proof (induction rt path data refResolver startIndex
         and rt path data refResolver index
         and rt path data index' refResolver
       arbitrary: v j and v j and v j
       rule: resolveOperand_operandLoop_resolveNegation.induct)
  case (1 rt path data refResolver startIndex)
  then show ?case
    by (subst resolveOperand.simps) auto
next
  case (2 rt path data refResolver index)
  show ?case
  proof
    assume eq: "operandLoop rt path data refResolver index = Inr (v, j)"
    show "index \<le> j"
    proof (cases "index < length path")
      case False
      with eq show ?thesis by (subst (asm) operandLoop.simps) simp
    next
      case lt: True
      consider (model) "path ! index = CHR ''.''"
        | (lit) "path ! index \<noteq> CHR ''.''" "path ! index = CHR 0x27 \<or> path ! index = CHR 0x22"
        | (neg) "path ! index \<noteq> CHR ''.''" "\<not> (path ! index = CHR 0x27 \<or> path ! index = CHR 0x22)"
                "path ! index = CHR ''!''"
        | (ref) "path ! index \<noteq> CHR ''.''" "\<not> (path ! index = CHR 0x27 \<or> path ! index = CHR 0x22)"
                "path ! index \<noteq> CHR ''!''" "path ! index = CHR '':''"
        | (skip) "path ! index \<noteq> CHR ''.''" "\<not> (path ! index = CHR 0x27 \<or> path ! index = CHR 0x22)"
                "path ! index \<noteq> CHR ''!''" "path ! index \<noteq> CHR '':''"
        by blast
      then show ?thesis
      proof cases
        case model
        with eq lt show ?thesis
          by (subst (asm) operandLoop.simps)
             (auto simp: Let_def split: sum.splits if_splits dest!: resolveModel_index)
      next
        case lit
        with eq lt show ?thesis
          by (subst (asm) operandLoop.simps)
             (auto simp: Let_def split: sum.splits dest!: resolveStringLiteralASCII_index)
      next
        case neg
        with eq lt have "resolveNegation rt path data index refResolver = Inr (v, j)"
          by (subst (asm) operandLoop.simps) (simp add: Let_def)
        with "2.IH"(1) [OF lt refl] neg show ?thesis by (simp add: less_imp_le)
      next
        case ref
        with eq lt have "resolveReference path data index refResolver = Inr (v, j)"
          by (subst (asm) operandLoop.simps) (simp add: Let_def)
        then show ?thesis by (auto dest: resolveReference_index)
      next
        case skip
        with eq lt have step: "operandLoop rt path data refResolver (index + 1) = Inr (v, j)"
          by (subst (asm) operandLoop.simps) (simp add: Let_def)
        have "index + 1 \<le> j"
          using "2.IH"(2) [OF lt refl skip, of v j] step by blast
        then show ?thesis by simp
      qed
    qed
  qed
next
  case (3 rt path data index' refResolver)
  show ?case
  proof
    assume eq: "resolveNegation rt path data index' refResolver = Inr (v, j)"
    then obtain w where "resolveOperand rt path data refResolver (index' + 1) = Inr (w, j)"
      by (subst (asm) resolveNegation.simps)
         (auto simp: Let_def split: sum.splits option.splits if_splits)
    with "3.IH" show "index' < j" by fastforce
  qed
qed

lemma resolveOperand_index:
  "resolveOperand rt path data refResolver startIndex = Inr (v, j) \<Longrightarrow> startIndex \<le> j"
  using operand_negation_index(1) by blast

lemma resolveNegation_index:
  "resolveNegation rt path data index refResolver = Inr (v, j) \<Longrightarrow> index < j"
  using operand_negation_index(3) by blast

lemma parseOperator_index:
  "parseOperator path index = (b, j, err) \<Longrightarrow> index < j"
  by (auto simp: parseOperator_def split: if_splits)

lemma resolveComparison_index:
  "resolveComparison rt path data index refResolver = Inr (b, j) \<Longrightarrow> index < j"
  by (auto simp: resolveComparison_def Let_def split: sum.splits prod.splits if_splits
           dest!: resolveOperand_index parseOperator_index)

section \<open>parser.go and empaths.go: the dispatcher\<close>

text \<open>
  The loop of \<open>resolveExpressions\<close> with its variables \<open>index\<close>, \<open>first\<close>, \<open>hasFirst\<close>
  and \<open>rest\<close>. The two quote cases of the \<^verbatim>\<open>switch\<close> differ only in the quote they
  pass on, which is the byte \<open>c\<close> itself. The result of a comparison is a Go \<^verbatim>\<open>bool\<close>.
\<close>

function exprLoop ::
  "runtime \<Rightarrow> string \<Rightarrow> val \<Rightarrow> ReferenceResolver \<Rightarrow> nat \<Rightarrow> val \<Rightarrow> bool \<Rightarrow> val list
     \<Rightarrow> panic + (val \<times> nat)" where
  "exprLoop rt path data refResolver index first hasFirst rest =
     (if index < length path then
        (let c = path ! index
         in if c = CHR ''.'' then
              (case resolveModel rt path data index of
                 Inl e \<Rightarrow> Inl e
               | Inr (modelResult, newIndex, err) \<Rightarrow>
                   if err \<noteq> None then Inr (Nil, index)
                   else if \<not> hasFirst
                   then exprLoop rt path data refResolver newIndex modelResult True rest
                   else exprLoop rt path data refResolver newIndex first hasFirst
                          (rest @ [modelResult]))
            else if c = CHR 0x27 \<or> c = CHR 0x22 then
              (case resolveStringLiteralASCII path index c of
                 Inl e \<Rightarrow> Inl e
               | Inr (stringResult, newIndex) \<Rightarrow>
                   if \<not> hasFirst
                   then exprLoop rt path data refResolver newIndex (StringV stringResult) True rest
                   else exprLoop rt path data refResolver newIndex first hasFirst
                          (rest @ [StringV stringResult]))
            else if c = CHR ''!'' then
              (case resolveNegation rt path data index refResolver of
                 Inl e \<Rightarrow> Inl e
               | Inr (negResult, newIndex) \<Rightarrow>
                   if \<not> hasFirst
                   then exprLoop rt path data refResolver newIndex negResult True rest
                   else exprLoop rt path data refResolver newIndex first hasFirst
                          (rest @ [negResult]))
            else if c = CHR '':'' then
              (case resolveReference path data index refResolver of
                 Inl e \<Rightarrow> Inl e
               | Inr (referenceResult, newIndex) \<Rightarrow>
                   if \<not> hasFirst
                   then exprLoop rt path data refResolver newIndex referenceResult True rest
                   else exprLoop rt path data refResolver newIndex first hasFirst
                          (rest @ [referenceResult]))
            else if c = CHR ''?'' then
              (case resolveComparison rt path data index refResolver of
                 Inl e \<Rightarrow> Inl e
               | Inr (comparisonResult, newIndex) \<Rightarrow>
                   if \<not> hasFirst
                   then exprLoop rt path data refResolver newIndex (BoolV comparisonResult)
                          True rest
                   else exprLoop rt path data refResolver newIndex first hasFirst
                          (rest @ [BoolV comparisonResult]))
            else exprLoop rt path data refResolver (index + 1) first hasFirst rest)
      else if rest \<noteq> [] then
        Inr (StringV (toString rt first @ concat (map (toString rt) rest)), index)
      else if hasFirst then Inr (first, index)
      else Inr (data, index))"
  by pat_completeness auto
termination
  by (relation "measure (\<lambda>(rt, path, d, r, index, f, h, rest). length path - index)")
     (auto dest!: resolveModel_index resolveStringLiteralASCII_index resolveNegation_index
                  resolveReference_index resolveComparison_index)

declare exprLoop.simps [simp del]

definition resolveExpressions ::
  "runtime \<Rightarrow> string \<Rightarrow> val \<Rightarrow> ReferenceResolver \<Rightarrow> nat \<Rightarrow> panic + (val \<times> nat)" where
  "resolveExpressions rt path data refResolver startIndex =
     (if length path = 0 then Inr (data, startIndex)
      else exprLoop rt path data refResolver startIndex Nil False [])"

definition Resolve :: "runtime \<Rightarrow> string \<Rightarrow> val \<Rightarrow> ReferenceResolver \<Rightarrow> panic + val" where
  "Resolve rt path data refResolver =
     (if path = [] then Inr data
      else case resolveExpressions rt path data refResolver 0 of
             Inl e \<Rightarrow> Inl e
           | Inr (result, index) \<Rightarrow> Inr result)"

text \<open>A runtime for concrete runs that involve neither floating-point numbers nor
  \<^verbatim>\<open>fmt\<close>'s default formatting; such runs never consult it.\<close>

definition sampleRuntime :: runtime where
  "sampleRuntime =
     \<lparr> sprintv = (\<lambda>v. ''%v''),
       formatFloat32 = (\<lambda>f. ''%f''),
       formatFloat64 = (\<lambda>f. ''%f''),
       parseFloat = (\<lambda>s. None),
       toFloat32 = (\<lambda>f. f),
       floatEq = (\<lambda>a b. a = b) \<rparr>"

section \<open>Segments of a path\<close>

text \<open>
  The spec's reading of the dispatcher (section 4.1), kept apart from the code's loop:
  scanning left to right, a byte \<^verbatim>\<open>.\<close>, \<^verbatim>\<open>'\<close>, \<^verbatim>\<open>"\<close>, \<^verbatim>\<open>!\<close>, \<^verbatim>\<open>:\<close> or \<^verbatim>\<open>?\<close> starts a
  segment, whose delegate returns the segment's value and the index where scanning
  resumes; every other byte is skipped. \<open>segmentAt\<close> is the segment starting at an
  index, if one starts there; \<open>specSegments\<close> lists the values of the segments met from
  an index on, in order; \<open>specCombine\<close> is the spec's termination rule on that list,
  with the root value for the empty list as in the code.
\<close>

definition segmentAt ::
  "runtime \<Rightarrow> string \<Rightarrow> val \<Rightarrow> ReferenceResolver \<Rightarrow> nat \<Rightarrow> (panic + (val \<times> nat)) option" where
  "segmentAt rt path data refResolver index =
     (let c = path ! index
      in if c = CHR ''.'' then
           Some (case resolveModel rt path data index of
                   Inl e \<Rightarrow> Inl e
                 | Inr (v, j, err) \<Rightarrow> Inr (v, j))
         else if c = CHR 0x27 \<or> c = CHR 0x22 then
           Some (case resolveStringLiteralASCII path index c of
                   Inl e \<Rightarrow> Inl e
                 | Inr (s, j) \<Rightarrow> Inr (StringV s, j))
         else if c = CHR ''!'' then Some (resolveNegation rt path data index refResolver)
         else if c = CHR '':'' then Some (resolveReference path data index refResolver)
         else if c = CHR ''?'' then
           Some (case resolveComparison rt path data index refResolver of
                   Inl e \<Rightarrow> Inl e
                 | Inr (b, j) \<Rightarrow> Inr (BoolV b, j))
         else None)"

lemma segmentAt_index:
  "segmentAt rt path data refResolver index = Some (Inr (v, j)) \<Longrightarrow> index < j"
  by (auto simp: segmentAt_def Let_def split: if_splits sum.splits
           dest: resolveModel_index resolveStringLiteralASCII_index resolveNegation_index
                 resolveReference_index resolveComparison_index)

function specSegments ::
  "runtime \<Rightarrow> string \<Rightarrow> val \<Rightarrow> ReferenceResolver \<Rightarrow> nat \<Rightarrow> panic + val list" where
  "specSegments rt path data refResolver index =
     (if index < length path then
        (case segmentAt rt path data refResolver index of
           None \<Rightarrow> specSegments rt path data refResolver (index + 1)
         | Some (Inl e) \<Rightarrow> Inl e
         | Some (Inr (v, j)) \<Rightarrow>
             (case specSegments rt path data refResolver j of
                Inl e \<Rightarrow> Inl e
              | Inr vs \<Rightarrow> Inr (v # vs)))
      else Inr [])"
  by pat_completeness auto
termination
  by (relation "measure (\<lambda>(rt, path, d, r, index). length path - index)")
     (auto dest!: segmentAt_index)

declare specSegments.simps [simp del]

fun specCombine :: "runtime \<Rightarrow> val \<Rightarrow> val list \<Rightarrow> val" where
  "specCombine rt data [] = data"
| "specCombine rt data [v] = v"
| "specCombine rt data vs = StringV (concat (map (toString rt) vs))"

lemma exprLoop_step:
  assumes "index < length path"
  shows "exprLoop rt path data refResolver index first hasFirst rest =
     (case segmentAt rt path data refResolver index of
        None \<Rightarrow> exprLoop rt path data refResolver (index + 1) first hasFirst rest
      | Some (Inl e) \<Rightarrow> Inl e
      | Some (Inr (v, j)) \<Rightarrow>
          if \<not> hasFirst then exprLoop rt path data refResolver j v True rest
          else exprLoop rt path data refResolver j first hasFirst (rest @ [v]))"
  using assms
  by (subst exprLoop.simps)
     (auto simp: segmentAt_def Let_def split: sum.splits dest: resolveModel_index)

lemma exprLoop_done:
  assumes "\<not> index < length path"
  shows "exprLoop rt path data refResolver index first hasFirst rest =
     Inr (if rest \<noteq> [] then StringV (toString rt first @ concat (map (toString rt) rest))
          else if hasFirst then first else data, index)"
  using assms by (subst exprLoop.simps) simp

lemma specCombine_acc:
  "specCombine rt data (first # rest) =
     (if rest \<noteq> [] then StringV (toString rt first @ concat (map (toString rt) rest))
      else first)"
  by (cases rest) auto

text \<open>The code's loop computes the spec's combination of the segments: those already
  accumulated in \<open>first\<close> and \<open>rest\<close>, then those still to come.\<close>

lemma exprLoop_specSegments:
  assumes "specSegments rt path data refResolver index = Inr vs"
    and "hasFirst \<or> rest = []"
  shows "\<exists>j. length path \<le> j \<and> index \<le> j \<and>
           exprLoop rt path data refResolver index first hasFirst rest =
             Inr (specCombine rt data ((if hasFirst then first # rest else []) @ vs), j)"
  using assms
proof (induction rt path data refResolver index
         arbitrary: vs first hasFirst rest rule: specSegments.induct)
  case (1 rt path data refResolver index)
  show ?case
  proof (cases "index < length path")
    case False
    with "1.prems" have "vs = []" by (subst (asm) specSegments.simps) simp
    with False "1.prems"(2) show ?thesis
      by (auto simp: exprLoop_done specCombine_acc intro!: exI [of _ index])
  next
    case lt: True
    show ?thesis
    proof (cases "segmentAt rt path data refResolver index")
      case None
      with lt "1.prems" have "specSegments rt path data refResolver (index + 1) = Inr vs"
        by (subst (asm) specSegments.simps) simp
      from "1.IH"(1) [OF lt None this "1.prems"(2), of first]
      obtain j where "length path \<le> j" "index + 1 \<le> j"
        "exprLoop rt path data refResolver (index + 1) first hasFirst rest =
           Inr (specCombine rt data ((if hasFirst then first # rest else []) @ vs), j)"
        by blast
      with lt None show ?thesis
        by (auto simp: exprLoop_step intro!: exI [of _ j])
    next
      case (Some r)
      show ?thesis
      proof (cases r)
        case (Inl e)
        with lt Some "1.prems" show ?thesis
          by (subst (asm) specSegments.simps) simp
      next
        case (Inr p)
        obtain v k where p: "p = (v, k)" by (cases p)
        have at: "segmentAt rt path data refResolver index = Some (Inr (v, k))"
          using Some Inr p by simp
        from at have ik: "index < k" by (rule segmentAt_index)
        from lt at "1.prems" obtain ws where
          ws: "specSegments rt path data refResolver k = Inr ws" and vs: "vs = v # ws"
          by (subst (asm) specSegments.simps) (auto split: sum.splits)
        show ?thesis
        proof (cases hasFirst)
          case True
          from "1.IH"(2) [OF lt Some Inr p [symmetric] ws, of True "rest @ [v]" first]
          obtain j where "length path \<le> j" "k \<le> j"
            "exprLoop rt path data refResolver k first True (rest @ [v]) =
               Inr (specCombine rt data ((first # rest @ [v]) @ ws), j)"
            by auto
          with lt at True vs ik show ?thesis
            by (auto simp: exprLoop_step intro!: exI [of _ j])
        next
          case False
          with "1.prems"(2) have r: "rest = []" by simp
          from "1.IH"(2) [OF lt Some Inr p [symmetric] ws, of True "[]" v]
          obtain j where "length path \<le> j" "k \<le> j"
            "exprLoop rt path data refResolver k v True [] =
               Inr (specCombine rt data ([v] @ ws), j)"
            by auto
          with lt at False r vs ik show ?thesis
            by (auto simp: exprLoop_step intro!: exI [of _ j])
        qed
      qed
    qed
  qed
qed

lemma Resolve_specSegments:
  assumes "specSegments rt path data refResolver 0 = Inr vs"
  shows "Resolve rt path data refResolver = Inr (specCombine rt data vs)"
proof (cases "path = []")
  case True
  with assms have "vs = []" by (subst (asm) specSegments.simps) simp
  with True show ?thesis by (simp add: Resolve_def)
next
  case False
  from exprLoop_specSegments [OF assms, of False "[]" Nil]
  obtain j where "exprLoop rt path data refResolver 0 Nil False [] =
      Inr (specCombine rt data vs, j)"
    by auto
  with False show ?thesis by (simp add: Resolve_def resolveExpressions_def)
qed

section \<open>Sample data\<close>

text \<open>The \<^verbatim>\<open>Person\<close> of the test suite (with two more fields: an unexported map and a
  nil pointer), a path literal in single quotes, a map with bool keys, a map type with
  methods, and a struct whose unexported field has a method.\<close>

definition alice :: val where
  "alice =
     Named [(''GetFullName'', Meth 0 (Some [StringV ''Mr/Ms Alice''])),
            (''IsAdult'', Meth 0 (Some [BoolV True]))]
       (StructV
          [(''Name'', StringV ''Alice''),
           (''Age'', IntV TInt 30),
           (''Active'', BoolV True),
           (''Address'', Named [] (StructV [(''City'', StringV ''NYC'')])),
           (''Tags'', SliceV (Some [StringV ''developer'', StringV ''gopher''])),
           (''Scores'', MapV KString (Some [(StringK ''math'', IntV TInt 95)])),
           (''secret'', MapV KString (Some [(StringK ''a'', IntV TInt 1)])),
           (''Next'', PtrV None)])"

definition quoted :: "string \<Rightarrow> string" where
  "quoted s = [CHR 0x27] @ s @ [CHR 0x27]"

definition flags :: val where
  "flags = MapV KBool (Some [(BoolK True, StringV ''enabled''), (BoolK False, StringV ''disabled'')])"


definition holder :: val where
  "holder =
     Named []
       (StructV [(''inner'', Named [(''Name'', Meth 0 (Some [StringV ''x'']))] (StructV []))])"

text \<open>The defining equations that evaluate the model on concrete inputs.\<close>

lemmas eval_simps =
  resolveOperand.simps operandLoop.simps resolveModel_def resolveReference_def
  readUntilTerminatorASCII_def readUntilLoop.simps slice_def Let_def
  resolveStringLiteralASCII_def literalEnd.simps literalBuild.simps
  resolvePathAgainstValue.simps resolvePathSegments.simps resolveArrayOrMapAccess.simps
  resolveFieldOrMethod_def resolveMethod_def resolveField_def resolveIndexOrKey_def
  getMapValue_def extractValue.simps isExported_def isUpperASCII_def quoted_def
  Atoi_def ParseInt_def ParseUint_def ParseBool_def isDigit_def
  FormatInt_def FormatUint.simps digitChar_def

lemmas dispatch_simps =
  Resolve_def resolveExpressions_def exprLoop.simps specSegments.simps segmentAt_def
  resolveNegation.simps resolveComparison_def parseOperator_def ToLower_def toLowerByte_def

section \<open>One segment, several segments\<close>

text \<open>
  C1. When a path scans to exactly one segment, \<open>Resolve\<close> returns that segment's
  value as it is (an integer stays an integer). When it scans to two or more segments,
  \<open>Resolve\<close> returns one string: the string forms (\<open>toString\<close>) of the segments'
  values, concatenated in the order met.
\<close>

theorem single_and_multi_segment:
  "(specSegments rt path data refResolver 0 = Inr [v] \<longrightarrow>
      Resolve rt path data refResolver = Inr v)
   \<and> (specSegments rt path data refResolver 0 = Inr vs \<and> 2 \<le> length vs \<longrightarrow>
      Resolve rt path data refResolver = Inr (StringV (concat (map (toString rt) vs))))"
proof (intro conjI impI)
  assume "specSegments rt path data refResolver 0 = Inr [v]"
  from Resolve_specSegments [OF this] show "Resolve rt path data refResolver = Inr v"
    by simp
next
  assume a: "specSegments rt path data refResolver 0 = Inr vs \<and> 2 \<le> length vs"
  then obtain x y zs where "vs = x # y # zs"
    by (cases vs; cases "tl vs") auto
  with a Resolve_specSegments [of rt path data refResolver vs]
  show "Resolve rt path data refResolver = Inr (StringV (concat (map (toString rt) vs)))"
    by simp
qed

theorem single_and_multi_segment_witness:
  "Resolve sampleRuntime ''.Age'' alice None = Inr (IntV TInt 30)
   \<and> Resolve sampleRuntime (''.Name '' @ quoted '' is '' @ '' .Age'') alice None
       = Inr (StringV ''Alice is 30'')"
proof -
  have s1: "specSegments sampleRuntime ''.Age'' alice None 0 = Inr [IntV TInt 30]"
    by (simp add: alice_def dispatch_simps eval_simps)
  have s2: "specSegments sampleRuntime (''.Name '' @ quoted '' is '' @ '' .Age'') alice None 0
              = Inr [StringV ''Alice'', StringV '' is '', IntV TInt 30]"
    by (simp add: alice_def dispatch_simps eval_simps)
  show ?thesis
    using single_and_multi_segment
            [of sampleRuntime "''.Age''" alice None "IntV TInt 30" "[]"]
          single_and_multi_segment
            [of sampleRuntime "''.Name '' @ quoted '' is '' @ '' .Age''" alice None Nil
                "[StringV ''Alice'', StringV '' is '', IntV TInt 30]"]
          s1 s2
    by (simp add: eval_simps)
qed

section \<open>Graceful failure\<close>

text \<open>
  C2 says that \<open>Resolve\<close> never raises unless an accessor or the reference callback
  does. The code guards \<^verbatim>\<open>Interface()\<close> against values reached through an unexported
  field (\<open>extractValue\<close>), but not \<^verbatim>\<open>Set\<close> in \<open>getMapValue\<close> nor \<^verbatim>\<open>Call\<close> in
  \<open>resolveMethod\<close>, which reflect refuses on such values with a panic. Looking up a key
  that exists in a map held by an unexported field panics; the same lookup through an
  exported field returns the entry, and the unexported field itself resolves to absent.
  Calling a method on the value of an unexported field panics as well.
\<close>

theorem unexported_member_panics:
  "Resolve sampleRuntime ''.secret.a'' alice None = Inl UnexportedPanic
   \<and> Resolve sampleRuntime ''.secret[a]'' alice None = Inl UnexportedPanic
   \<and> Resolve sampleRuntime ''.secret.b'' alice None = Inr Nil
   \<and> Resolve sampleRuntime ''.secret'' alice None = Inr Nil
   \<and> Resolve sampleRuntime ''.Scores.math'' alice None = Inr (IntV TInt 95)
   \<and> Resolve sampleRuntime ''.inner.Name'' holder None = Inl UnexportedPanic"
  by (simp add: alice_def holder_def dispatch_simps eval_simps)

section \<open>Comparison\<close>

text \<open>
  C3. A comparison segment resolves its left operand, ending at index \<open>j\<close>. If the two
  bytes at \<open>j\<close> are \<^verbatim>\<open>==\<close>, the result is the equality of the string forms of the left
  and the right operand; if they are \<^verbatim>\<open>!=\<close>, its negation. In every other case (other
  bytes, or fewer than two bytes left) the result is \<open>False\<close> and nothing is raised.
  Only the string forms (\<open>toString\<close>) of the operands enter the result.
\<close>

theorem comparison_result:
  assumes "resolveOperand rt path data refResolver (index + 1) = Inr (left, j)"
  shows "(j + 2 \<le> length path \<and> path ! j = CHR ''='' \<and> path ! (j + 1) = CHR ''='' \<longrightarrow>
            (\<forall>right k. resolveOperand rt path data refResolver (j + 2) = Inr (right, k) \<longrightarrow>
               resolveComparison rt path data index refResolver =
                 Inr (toString rt left = toString rt right, k)))
       \<and> (j + 2 \<le> length path \<and> path ! j = CHR ''!'' \<and> path ! (j + 1) = CHR ''='' \<longrightarrow>
            (\<forall>right k. resolveOperand rt path data refResolver (j + 2) = Inr (right, k) \<longrightarrow>
               resolveComparison rt path data index refResolver =
                 Inr (toString rt left \<noteq> toString rt right, k)))
       \<and> (\<not> (j + 2 \<le> length path \<and> (path ! j = CHR ''='' \<or> path ! j = CHR ''!'')
               \<and> path ! (j + 1) = CHR ''='') \<longrightarrow>
            resolveComparison rt path data index refResolver = Inr (False, j + 1))"
proof (intro conjI impI allI)
  fix right k
  assume "j + 2 \<le> length path \<and> path ! j = CHR ''='' \<and> path ! (j + 1) = CHR ''=''"
    and "resolveOperand rt path data refResolver (j + 2) = Inr (right, k)"
  with assms show "resolveComparison rt path data index refResolver =
      Inr (toString rt left = toString rt right, k)"
    by (simp add: resolveComparison_def parseOperator_def Let_def)
next
  fix right k
  assume "j + 2 \<le> length path \<and> path ! j = CHR ''!'' \<and> path ! (j + 1) = CHR ''=''"
    and "resolveOperand rt path data refResolver (j + 2) = Inr (right, k)"
  with assms show "resolveComparison rt path data index refResolver =
      Inr (toString rt left \<noteq> toString rt right, k)"
    by (simp add: resolveComparison_def parseOperator_def Let_def)
next
  assume "\<not> (j + 2 \<le> length path \<and> (path ! j = CHR ''='' \<or> path ! j = CHR ''!'')
             \<and> path ! (j + 1) = CHR ''='')"
  with assms show "resolveComparison rt path data index refResolver = Inr (False, j + 1)"
    by (auto simp add: resolveComparison_def parseOperator_def Let_def)
qed

theorem comparison_result_witness:
  "resolveComparison sampleRuntime (''?.Age=='' @ quoted ''30'') alice 0 None = Inr (True, 11)
   \<and> resolveComparison sampleRuntime (''?.Age!='' @ quoted ''30'') alice 0 None = Inr (False, 11)
   \<and> resolveComparison sampleRuntime (''?.Age=<'' @ quoted ''30'') alice 0 None = Inr (False, 6)
   \<and> resolveComparison sampleRuntime ''?.Age'' alice 0 None = Inr (False, 6)"
proof -
  have l1: "resolveOperand sampleRuntime (''?.Age=='' @ quoted ''30'') alice None (0 + 1)
              = Inr (IntV TInt 30, 5)"
    by (simp add: alice_def eval_simps)
  have r1: "resolveOperand sampleRuntime (''?.Age=='' @ quoted ''30'') alice None (5 + 2)
              = Inr (StringV ''30'', 11)"
    by (simp add: eval_simps)
  have l2: "resolveOperand sampleRuntime (''?.Age!='' @ quoted ''30'') alice None (0 + 1)
              = Inr (IntV TInt 30, 5)"
    by (simp add: alice_def eval_simps)
  have r2: "resolveOperand sampleRuntime (''?.Age!='' @ quoted ''30'') alice None (5 + 2)
              = Inr (StringV ''30'', 11)"
    by (simp add: eval_simps)
  have l3: "resolveOperand sampleRuntime (''?.Age=<'' @ quoted ''30'') alice None (0 + 1)
              = Inr (IntV TInt 30, 5)"
    by (simp add: alice_def eval_simps)
  have l4: "resolveOperand sampleRuntime ''?.Age'' alice None (0 + 1) = Inr (IntV TInt 30, 5)"
    by (simp add: alice_def eval_simps)
  have s: "toString sampleRuntime (IntV TInt 30) = ''30''"
    by (simp add: eval_simps)
  show ?thesis
    using comparison_result [OF l1] r1 comparison_result [OF l2] r2
      comparison_result [OF l3] comparison_result [OF l4] s
    by (simp add: quoted_def)
qed

section \<open>Negation\<close>

text \<open>
  C4. A negation segment resolves one operand. If the operand is a Go \<^verbatim>\<open>bool\<close> \<open>b\<close>, the
  result is \<open>\<not> b\<close>. Otherwise the operand is stringified and lower-cased: \<^verbatim>\<open>true\<close>
  gives \<open>False\<close>, \<^verbatim>\<open>false\<close> gives \<open>True\<close>, and every other string gives \<open>False\<close>.
  The negation itself never fails: it returns whenever its operand does.
\<close>

theorem negation_result:
  assumes "resolveOperand rt path data refResolver (index + 1) = Inr (value, newIndex)"
  shows "(\<forall>b. value = BoolV b \<longrightarrow>
            resolveNegation rt path data index refResolver = Inr (BoolV (\<not> b), newIndex))
       \<and> ((\<forall>b. value \<noteq> BoolV b) \<longrightarrow>
            resolveNegation rt path data index refResolver =
              Inr (BoolV (if ToLower (toString rt value) = ''true'' then False
                          else if ToLower (toString rt value) = ''false'' then True
                          else False), newIndex))"
proof (cases "asBool value")
  case None
  with assms show ?thesis
    by (subst (1 2) resolveNegation.simps) (auto simp: Let_def)
next
  case (Some b)
  then have "value = BoolV b" by (cases "value") auto
  with assms show ?thesis
    by (subst (1 2) resolveNegation.simps) auto
qed

theorem negation_result_witness:
  "resolveNegation sampleRuntime (''!'' @ quoted ''FALSE'') Nil 0 None = Inr (BoolV True, 8)
   \<and> resolveNegation sampleRuntime (''!'' @ quoted ''yes'') Nil 0 None = Inr (BoolV False, 6)
   \<and> resolveNegation sampleRuntime ''!.Active'' alice 0 None = Inr (BoolV False, 8)"
proof -
  have h1: "resolveOperand sampleRuntime (''!'' @ quoted ''FALSE'') Nil None (0 + 1)
              = Inr (StringV ''FALSE'', 8)"
    by (simp add: quoted_def resolveOperand.simps operandLoop.simps
          resolveStringLiteralASCII_def literalEnd.simps slice_def Let_def)
  have h2: "resolveOperand sampleRuntime (''!'' @ quoted ''yes'') Nil None (0 + 1)
              = Inr (StringV ''yes'', 6)"
    by (simp add: quoted_def resolveOperand.simps operandLoop.simps
          resolveStringLiteralASCII_def literalEnd.simps slice_def Let_def)
  have h3: "resolveOperand sampleRuntime ''!.Active'' alice None (0 + 1) = Inr (BoolV True, 8)"
    by (simp add: alice_def resolveOperand.simps operandLoop.simps resolveModel_def
          readUntilTerminatorASCII_def readUntilLoop.simps slice_def Let_def
          resolvePathAgainstValue.simps resolvePathSegments.simps resolveFieldOrMethod_def
          resolveMethod_def resolveField_def extractValue.simps isExported_def
          isUpperASCII_def)
  show ?thesis
    using negation_result [OF h1] negation_result [OF h2] negation_result [OF h3]
    by (auto simp add: ToLower_def toLowerByte_def)
qed

section \<open>Indirection\<close>

text \<open>
  \<open>resolveRef\<close> names the last two statements of \<open>resolveModel\<close>: the walk of the
  sub-path from a \<^verbatim>\<open>reflect.Value\<close>, then \<open>extractValue\<close>.
\<close>

definition resolveRef :: "runtime \<Rightarrow> string \<Rightarrow> rvalue \<Rightarrow> panic + val" where
  "resolveRef rt modelPath value =
     (case resolvePathAgainstValue rt modelPath value of
        Inl e \<Rightarrow> Inl e
      | Inr result \<Rightarrow> Inr (extractValue result))"

lemma resolveModel_resolveRef:
  "resolveModel rt path data index =
     (case readUntilTerminatorASCII path (index + 1) of
        Inl e \<Rightarrow> Inl e
      | Inr (modelPath, index') \<Rightarrow>
          if data = Nil then Inr (Nil, index', None)
          else case resolveRef rt modelPath (ValueOf data) of
                 Inl e \<Rightarrow> Inl e
               | Inr v \<Rightarrow> Inr (v, index', None))"
  by (simp add: resolveModel_def resolveRef_def split: sum.splits prod.splits)

















section \<open>Indexed collections\<close>

lemma indexByte_append_fresh:
  "b \<notin> set k \<Longrightarrow> indexByte (k @ b # rest) b = Some (length k)"
  by (induction k) auto

lemma parseDigits_append:
  "parseDigits (xs @ ys) acc =
     (case parseDigits xs acc of None \<Rightarrow> None | Some a \<Rightarrow> parseDigits ys a)"
  by (induction xs arbitrary: acc) auto

lemma digitChar_digit:
  assumes "d < 10"
  shows "isDigit (digitChar d) \<and> (of_char (digitChar d) :: nat) - 48 = d"
proof -
  from assms have "d \<in> {0, 1, 2, 3, 4, 5, 6, 7, 8, 9}" by auto
  then show ?thesis
    by (elim insertE emptyE) (simp_all add: digitChar_def isDigit_def)
qed

lemma parseDigits_FormatUint: "parseDigits (FormatUint n) 0 = Some n"
proof (induction n rule: FormatUint.induct)
  case (1 n)
  show ?case
  proof (cases "n < 10")
    case True
    with digitChar_digit [of n] show ?thesis
      by (subst FormatUint.simps) simp
  next
    case False
    have d: "n mod 10 < 10" by simp
    from False "1.IH" digitChar_digit [OF d] show ?thesis
      by (subst FormatUint.simps) (simp add: parseDigits_append)
  qed
qed

lemma FormatUint_digits: "c \<in> set (FormatUint n) \<Longrightarrow> isDigit c"
proof (induction n rule: FormatUint.induct)
  case (1 n)
  have d: "n mod 10 < 10" by simp
  from "1.prems" "1.IH" digitChar_digit [of n] digitChar_digit [OF d] show ?case
    by (subst (asm) FormatUint.simps) (auto split: if_splits)
qed

lemma FormatUint_nonempty: "FormatUint n \<noteq> []"
  by (subst FormatUint.simps) simp

lemma Atoi_FormatUint:
  assumes "n < 2 ^ 63"
  shows "Atoi (FormatUint n) = Some (int n)"
proof -
  obtain c cs where f: "FormatUint n = c # cs"
    using FormatUint_nonempty [of n] by (cases "FormatUint n") auto
  then have "isDigit c" using FormatUint_digits [of c n] by simp
  then have sign: "c \<noteq> CHR ''+''" "c \<noteq> CHR ''-''" by (auto simp: isDigit_def)
  have "ParseUint (c # cs) = Some n"
    using parseDigits_FormatUint [of n] assms f by (simp add: ParseUint_def)
  with sign assms show ?thesis
    by (simp add: Atoi_def ParseInt_def f Let_def)
qed

text \<open>
  C6. On an array or slice of length \<open>n\<close>, the access with key text \<open>k\<close> returns the
  element at position \<open>i\<close> when \<open>k\<close> parses (\<^verbatim>\<open>strconv.Atoi\<close>) as an integer \<open>i\<close> with
  \<open>0 \<le> i < n\<close>, and the invalid Value (absent) for every other \<open>k\<close>. On a value that is
  neither an array, a slice nor a map it returns the invalid Value. A bracket access
  \<^verbatim>\<open>[k]\<close> (with no \<^verbatim>\<open>]\<close> inside \<open>k\<close>) is this access with key text \<open>k\<close>. In
  particular the decimal text of a position \<open>m < n\<close> (below \<open>2 ^ 63\<close>, as every Go
  length is) returns the element at \<open>m\<close>.
\<close>

theorem index_access:
  "(Kind value = KArray \<or> Kind value = KSlice \<longrightarrow>
      (\<forall>i. Atoi k = Some i \<and> 0 \<le> i \<and> i < int (Len value) \<longrightarrow>
         resolveIndexOrKey rt k value =
           Inr (RV (isRO value) (elemsOf (under (payload value)) ! nat i)))
      \<and> ((\<forall>i. Atoi k = Some i \<longrightarrow> i < 0 \<or> int (Len value) \<le> i) \<longrightarrow>
         resolveIndexOrKey rt k value = Inr Invalid))
   \<and> (Kind value \<noteq> KArray \<and> Kind value \<noteq> KSlice \<and> Kind value \<noteq> KMap \<longrightarrow>
        resolveIndexOrKey rt k value = Inr Invalid)
   \<and> (CHR '']'' \<notin> set k \<longrightarrow>
        resolveArrayOrMapAccess rt (''['' @ k @ '']'') value = resolveIndexOrKey rt k value)
   \<and> ((Kind value = KArray \<or> Kind value = KSlice) \<and> m < Len value \<and> m < 2 ^ 63 \<longrightarrow>
        resolveIndexOrKey rt (FormatUint m) value =
          Inr (RV (isRO value) (elemsOf (under (payload value)) ! m)))"
proof (intro conjI impI allI)
  assume "(Kind value = KArray \<or> Kind value = KSlice) \<and> m < Len value \<and> m < 2 ^ 63"
  then show "resolveIndexOrKey rt (FormatUint m) value =
      Inr (RV (isRO value) (elemsOf (under (payload value)) ! m))"
    by (cases "value") (auto simp: resolveIndexOrKey_def Atoi_FormatUint)
next
  fix i
  assume "Kind value = KArray \<or> Kind value = KSlice"
    and "Atoi k = Some i \<and> 0 \<le> i \<and> i < int (Len value)"
  then show "resolveIndexOrKey rt k value =
      Inr (RV (isRO value) (elemsOf (under (payload value)) ! nat i))"
    by (cases "value") (auto simp: resolveIndexOrKey_def)
next
  assume "Kind value = KArray \<or> Kind value = KSlice"
    and "\<forall>i. Atoi k = Some i \<longrightarrow> i < 0 \<or> int (Len value) \<le> i"
  then show "resolveIndexOrKey rt k value = Inr Invalid"
    by (cases "value") (auto simp: resolveIndexOrKey_def split: option.splits)
next
  assume "Kind value \<noteq> KArray \<and> Kind value \<noteq> KSlice \<and> Kind value \<noteq> KMap"
  then show "resolveIndexOrKey rt k value = Inr Invalid"
    by (simp add: resolveIndexOrKey_def)
next
  assume fresh: "CHR '']'' \<notin> set k"
  have ix: "indexByte (k @ '']'') CHR '']'' = Some (length k)"
    using indexByte_append_fresh [OF fresh, of "[]"] by simp
  show "resolveArrayOrMapAccess rt (''['' @ k @ '']'') value = resolveIndexOrKey rt k value"
    by (subst resolveArrayOrMapAccess.simps) (simp add: ix slice_def split: sum.splits)
qed

theorem index_access_witness:
  "resolveIndexOrKey sampleRuntime ''1'' (RV False (SliceV (Some [StringV ''a'', StringV ''b''])))
     = Inr (RV False (StringV ''b''))
   \<and> resolveIndexOrKey sampleRuntime ''2'' (RV False (SliceV (Some [StringV ''a'', StringV ''b''])))
     = Inr Invalid
   \<and> resolveIndexOrKey sampleRuntime ''-1'' (RV False (SliceV (Some [StringV ''a'', StringV ''b''])))
     = Inr Invalid
   \<and> resolveIndexOrKey sampleRuntime ''x'' (RV False (ArrayV [StringV ''a'', StringV ''b'']))
     = Inr Invalid
   \<and> resolveIndexOrKey sampleRuntime ''0'' (RV False (StringV ''ab'')) = Inr Invalid
   \<and> resolveArrayOrMapAccess sampleRuntime ''[1]''
        (RV False (SliceV (Some [StringV ''a'', StringV ''b''])))
     = Inr (RV False (StringV ''b''))"
proof -
  let ?s = "RV False (SliceV (Some [StringV ''a'', StringV ''b'']))"
  have a1: "Atoi ''1'' = Some 1" and a2: "Atoi ''2'' = Some 2"
    and a3: "Atoi ''-1'' = Some (- 1)" and a4: "Atoi ''x'' = None"
    by (simp_all add: eval_simps)
  show ?thesis
    using index_access [of ?s "''1''" sampleRuntime]
      index_access [of ?s "''2''" sampleRuntime]
      index_access [of ?s "''-1''" sampleRuntime]
      index_access [of "RV False (ArrayV [StringV ''a'', StringV ''b''])" "''x''" sampleRuntime]
      index_access [of "RV False (StringV ''ab'')" "''0''" sampleRuntime]
    by (simp add: a1 a2 a3 a4)
qed

section \<open>Computed accessors before fields\<close>



section \<open>No segment\<close>





section \<open>Keyed collections with bool keys\<close>

text \<open>
  C9, as the spec states it, says that only the literals \<^verbatim>\<open>true\<close> and \<^verbatim>\<open>false\<close> parse
  as a bool key. The code parses the key with \<^verbatim>\<open>strconv.ParseBool\<close>, which also accepts
  \<^verbatim>\<open>1\<close>, \<^verbatim>\<open>t\<close>, \<^verbatim>\<open>T\<close>, \<^verbatim>\<open>TRUE\<close>, \<^verbatim>\<open>True\<close> and \<^verbatim>\<open>0\<close>, \<^verbatim>\<open>f\<close>, \<^verbatim>\<open>F\<close>, \<^verbatim>\<open>FALSE\<close>,
  \<^verbatim>\<open>False\<close>: the key \<^verbatim>\<open>1\<close> finds the entry stored under \<^verbatim>\<open>true\<close>.
\<close>

theorem bool_key_counterexample:
  "parseMapKey sampleRuntime ''1'' KBool = Some (BoolK True)
   \<and> getMapValue sampleRuntime ''1'' (RV False flags) = Inr (RV False (StringV ''enabled''))
   \<and> Resolve sampleRuntime ''.[TRUE]'' flags None = Inr (StringV ''enabled'')"
  by (simp add: flags_def Resolve_def resolveExpressions_def exprLoop.simps eval_simps)

text \<open>
  C9, amended. For a keyed collection whose key kind is bool, a key string parses exactly
  when \<^verbatim>\<open>strconv.ParseBool\<close> accepts it: \<^verbatim>\<open>1\<close>, \<^verbatim>\<open>t\<close>, \<^verbatim>\<open>T\<close>, \<^verbatim>\<open>TRUE\<close>, \<^verbatim>\<open>true\<close>,
  \<^verbatim>\<open>True\<close> are the key \<open>true\<close>; \<^verbatim>\<open>0\<close>, \<^verbatim>\<open>f\<close>, \<^verbatim>\<open>F\<close>, \<^verbatim>\<open>FALSE\<close>, \<^verbatim>\<open>false\<close>, \<^verbatim>\<open>False\<close> are
  the key \<open>false\<close>; every other key string fails to parse and the lookup yields absent
  (the invalid Value).
\<close>

theorem bool_key_parse:
  "parseMapKey rt keyStr KBool =
     (if keyStr \<in> {''1'', ''t'', ''T'', ''TRUE'', ''true'', ''True''} then Some (BoolK True)
      else if keyStr \<in> {''0'', ''f'', ''F'', ''FALSE'', ''false'', ''False''} then Some (BoolK False)
      else None)
   \<and> (keyKind mapValue = KBool
        \<and> keyStr \<notin> {''1'', ''t'', ''T'', ''TRUE'', ''true'', ''True'',
                     ''0'', ''f'', ''F'', ''FALSE'', ''false'', ''False''}
        \<longrightarrow> getMapValue rt keyStr mapValue = Inr Invalid)"
  by (simp add: getMapValue_def ParseBool_def)

theorem bool_key_parse_witness:
  "parseMapKey sampleRuntime ''t'' KBool = Some (BoolK True)
   \<and> parseMapKey sampleRuntime ''yes'' KBool = None
   \<and> getMapValue sampleRuntime ''yes'' (RV False flags) = Inr Invalid"
  using bool_key_parse [of sampleRuntime "''t''" "RV False flags"]
    bool_key_parse [of sampleRuntime "''yes''" "RV False flags"]
  by (simp add: flags_def)

section \<open>The dispatcher consumes its input\<close>

lemma exprLoop_index:
  "exprLoop rt path data refResolver index first hasFirst rest = Inr (v, j)
     \<Longrightarrow> length path \<le> j \<and> index \<le> j"
proof (induction "length path - index" arbitrary: index first hasFirst rest rule: less_induct)
  case less
  show ?case
  proof (cases "index < length path")
    case False
    with less.prems show ?thesis by (simp add: exprLoop_done)
  next
    case lt: True
    show ?thesis
    proof (cases "segmentAt rt path data refResolver index")
      case None
      with lt less.prems
      have "exprLoop rt path data refResolver (index + 1) first hasFirst rest = Inr (v, j)"
        by (simp add: exprLoop_step)
      moreover have "length path - (index + 1) < length path - index" using lt by simp
      ultimately have "length path \<le> j \<and> index + 1 \<le> j" by (rule less.hyps [rotated])
      then show ?thesis by simp
    next
      case (Some r)
      show ?thesis
      proof (cases r)
        case (Inl e)
        with lt Some less.prems show ?thesis by (simp add: exprLoop_step)
      next
        case (Inr p)
        obtain w k where p: "p = (w, k)" by (cases p)
        have at: "segmentAt rt path data refResolver index = Some (Inr (w, k))"
          using Some Inr p by simp
        from at have ik: "index < k" by (rule segmentAt_index)
        then have dec: "length path - k < length path - index" using lt by simp
        from lt at less.prems obtain f h r' where
          "exprLoop rt path data refResolver k f h r' = Inr (v, j)"
          by (auto simp: exprLoop_step split: if_splits)
        from less.hyps [OF dec this] ik show ?thesis by simp
      qed
    qed
  qed
qed

text \<open>
  C10. The dispatcher is a total function: its loop is defined by recursion on
  \<open>length path - index\<close>, and the termination proof of \<open>exprLoop\<close> rests on the fact
  that every segment delegate returns an index strictly greater than the one it was
  given (the other bytes advance the index by one). Whenever the dispatcher returns, the
  index it returns is at least the length of the path.
\<close>

theorem dispatcher_consumes_input:
  "(resolveExpressions rt path data refResolver startIndex = Inr (v, j) \<longrightarrow>
      length path \<le> j \<and> startIndex \<le> j)
   \<and> (resolveModel rt path data index = Inr (v1, j1, err) \<longrightarrow> index < j1)
   \<and> (resolveStringLiteralASCII path index quoteChar = Inr (s2, j2) \<longrightarrow> index < j2)
   \<and> (resolveNegation rt path data index refResolver = Inr (v3, j3) \<longrightarrow> index < j3)
   \<and> (resolveReference path data index refResolver = Inr (v4, j4) \<longrightarrow> index < j4)
   \<and> (resolveComparison rt path data index refResolver = Inr (b5, j5) \<longrightarrow> index < j5)"
proof (intro conjI impI)
  assume "resolveExpressions rt path data refResolver startIndex = Inr (v, j)"
  then show "length path \<le> j" and "startIndex \<le> j"
    by (auto simp: resolveExpressions_def split: if_splits dest: exprLoop_index)
qed (auto dest: resolveModel_index resolveStringLiteralASCII_index resolveNegation_index
       resolveReference_index resolveComparison_index)

theorem dispatcher_consumes_input_witness:
  "resolveExpressions sampleRuntime ''?.Age'' alice None 0 = Inr (BoolV False, 6)
   \<and> length ''?.Age'' \<le> (6::nat)
   \<and> resolveComparison sampleRuntime ''?.Age'' alice 0 None = Inr (False, 6)
   \<and> resolveModel sampleRuntime ''?.Age'' alice 1 = Inr (IntV TInt 30, 5, None)"
proof -
  have e: "resolveExpressions sampleRuntime ''?.Age'' alice None 0 = Inr (BoolV False, 6)"
    by (simp add: alice_def dispatch_simps eval_simps)
  have c: "resolveComparison sampleRuntime ''?.Age'' alice 0 None = Inr (False, 6)"
    by (simp add: alice_def dispatch_simps eval_simps)
  have m: "resolveModel sampleRuntime ''?.Age'' alice 1 = Inr (IntV TInt 30, 5, None)"
    by (simp add: alice_def dispatch_simps eval_simps)
  show ?thesis
    using dispatcher_consumes_input
      [of sampleRuntime "''?.Age''" alice None 0 "BoolV False" 6 0 "IntV TInt 30" 5 None]
      e c m
    by simp
qed

end
